theory Spec2Isabelle
  imports Main "HOL-Library.Sublist" "HOL-Library.Char_ord" "HOL-Library.List_Lexorder"
begin

section \<open>Python strings\<close>

text \<open>
  A Python \<open>str\<close> is modelled as a \<open>string\<close> whose characters are the code points
  below 256. \<open>is_space\<close> is the whitespace class shared by \<open>str.isspace\<close>, \<open>str.strip\<close>,
  \<open>str.split\<close> and the regular expression \<open>\s\<close> on that range. Case mapping is the one
  of the ASCII letters.
\<close>

definition newline :: char where
  "newline = CHR 0x0A"

definition is_space :: "char \<Rightarrow> bool" where
  "is_space c = (of_char c \<in> {9, 10, 11, 12, 13, 28, 29, 30, 31, 32, 133, 160 :: nat})"

definition to_upper :: "char \<Rightarrow> char" where
  "to_upper c = (if CHR ''a'' \<le> c \<and> c \<le> CHR ''z'' then char_of (of_char c - 32 :: nat) else c)"

definition to_lower :: "char \<Rightarrow> char" where
  "to_lower c = (if CHR ''A'' \<le> c \<and> c \<le> CHR ''Z'' then char_of (of_char c + 32 :: nat) else c)"

text \<open>\<open>s.strip()\<close>: leading and trailing whitespace removed.\<close>

fun rstrip :: "string \<Rightarrow> string" where
  "rstrip [] = []"
| "rstrip (c # cs) = (let r = rstrip cs in if r = [] \<and> is_space c then [] else c # r)"

definition str_strip :: "string \<Rightarrow> string" where
  "str_strip s = rstrip (dropWhile is_space s)"

text \<open>\<open>s.split()\<close> without argument: the maximal runs of non-whitespace, in order.
  The first argument is the word read so far.\<close>

fun split_from :: "string \<Rightarrow> string \<Rightarrow> string list" where
  "split_from w [] = (if w = [] then [] else [w])"
| "split_from w (c # cs) =
     (if is_space c then (if w = [] then split_from [] cs else w # split_from [] cs)
      else split_from (w @ [c]) cs)"

definition str_split :: "string \<Rightarrow> string list" where
  "str_split s = split_from [] s"

text \<open>\<open>sep.join(xs)\<close>.\<close>

fun str_join :: "string \<Rightarrow> string list \<Rightarrow> string" where
  "str_join sep [] = []"
| "str_join sep [x] = x"
| "str_join sep (x # y # r) = x @ sep @ str_join sep (y # r)"

text \<open>\<open>s.replace(old, new)\<close>: the non-overlapping occurrences of \<open>old\<close>, leftmost first.
  With an empty \<open>old\<close> Python puts \<open>new\<close> around every character.\<close>

function str_replace :: "string \<Rightarrow> string \<Rightarrow> string \<Rightarrow> string" where
  "str_replace old new [] = (if old = [] then new else [])"
| "str_replace old new (c # cs) =
     (if old = [] then new @ c # str_replace old new cs
      else if prefix old (c # cs) then new @ str_replace old new (drop (length old) (c # cs))
      else c # str_replace old new cs)"
  by pat_completeness auto
termination
  by (relation "measure (\<lambda>(old, new, s). length s)") auto

text \<open>\<open>w.capitalize()\<close>: first character upper case, all the others lower case.\<close>

definition str_capitalize :: "string \<Rightarrow> string" where
  "str_capitalize w = (case w of [] \<Rightarrow> [] | c # cs \<Rightarrow> to_upper c # map to_lower cs)"

text \<open>\<open>str(n)\<close> for a natural number.\<close>

fun show_nat :: "nat \<Rightarrow> string" where
  "show_nat n =
     (if n < 10 then [char_of (48 + n)]
      else show_nat (n div 10) @ [char_of (48 + n mod 10)])"

declare show_nat.simps [simp del]

section \<open>Regular expressions (\<open>re.sub\<close>)\<close>

text \<open>
  The patterns of the scripts are sequences of these items: a literal, \<open>[^c]*\<close>, \<open>c?\<close>,
  \<open>\s+\<close>, and with \<open>re.MULTILINE\<close> the anchors \<open>^\<close> and \<open>$\<close>. A position is the rest of the
  input together with the flag "at the start of a line". \<open>rmatch\<close> is the backtracking
  matcher: greedy items try the longest run first and give characters back one at a time;
  it returns the length of the match found at the position.
\<close>

datatype item = Lit string | StarNot char | Opt char | PlusSpace | Bol | Eol

type_synonym pos = "bool \<times> string"

fun advance :: "nat \<Rightarrow> pos \<Rightarrow> pos" where
  "advance n (b, s) = ((case rev (take n s) of [] \<Rightarrow> b | c # _ \<Rightarrow> c = newline), drop n s)"

fun backtrack :: "(pos \<Rightarrow> nat option) \<Rightarrow> pos \<Rightarrow> nat \<Rightarrow> nat \<Rightarrow> nat option" where
  "backtrack k p lo 0 = (if lo = 0 then k p else None)"
| "backtrack k p lo (Suc n) =
     (if Suc n < lo then None
      else case k (advance (Suc n) p) of
             Some m \<Rightarrow> Some (Suc n + m)
           | None \<Rightarrow> backtrack k p lo n)"

fun step :: "item \<Rightarrow> (pos \<Rightarrow> nat option) \<Rightarrow> pos \<Rightarrow> nat option" where
  "step (Lit l) k p =
     (if prefix l (snd p) then map_option (\<lambda>m. length l + m) (k (advance (length l) p))
      else None)"
| "step (StarNot c) k p = backtrack k p 0 (length (takeWhile (\<lambda>x. x \<noteq> c) (snd p)))"
| "step (Opt c) k p =
     (case (if prefix [c] (snd p) then k (advance 1 p) else None) of
        Some m \<Rightarrow> Some (1 + m)
      | None \<Rightarrow> k p)"
| "step PlusSpace k p = backtrack k p 1 (length (takeWhile is_space (snd p)))"
| "step Bol k p = (if fst p then k p else None)"
| "step Eol k p = (if prefix [newline] (snd p) \<or> snd p = [] then k p else None)"

primrec rmatch :: "item list \<Rightarrow> pos \<Rightarrow> nat option" where
  "rmatch [] = (\<lambda>p. Some 0)"
| "rmatch (i # r) = step i (rmatch r)"

text \<open>
  \<open>re.sub\<close> scans from the left: where the pattern matches, the replacement is emitted and
  the scan goes on after the match; elsewhere the character is copied. (An empty match is
  replaced and the next character copied; no pattern of the scripts has one.)
\<close>

function sub_from :: "item list \<Rightarrow> string \<Rightarrow> pos \<Rightarrow> string" where
  "sub_from pat repl (b, []) = (case rmatch pat (b, []) of None \<Rightarrow> [] | Some n \<Rightarrow> repl)"
| "sub_from pat repl (b, c # cs) =
     (case rmatch pat (b, c # cs) of
        None \<Rightarrow> c # sub_from pat repl (c = newline, cs)
      | Some 0 \<Rightarrow> repl @ c # sub_from pat repl (c = newline, cs)
      | Some (Suc n) \<Rightarrow> repl @ sub_from pat repl (advance (Suc n) (b, c # cs)))"
  by pat_completeness auto
termination
  by (relation "measure (\<lambda>(pat, repl, p). length (snd p))") auto

definition re_sub :: "item list \<Rightarrow> string \<Rightarrow> string \<Rightarrow> string" where
  "re_sub pat repl s = sub_from pat repl (True, s)"

section \<open>Paths\<close>

text \<open>
  A \<open>pathlib.Path\<close> is the list of its parts. Paths compare as their part lists do, parts
  as strings of code points: the order \<open>sorted\<close> uses.
\<close>

type_synonym path = "string list"

definition path_name :: "path \<Rightarrow> string" where
  "path_name p = (case rev p of [] \<Rightarrow> [] | n # _ \<Rightarrow> n)"

definition path_parent :: "path \<Rightarrow> path" where
  "path_parent p = butlast p"

definition path_str :: "path \<Rightarrow> string" where
  "path_str p = (if p = [] then ''.'' else str_join ''/'' p)"

text \<open>\<open>Path.stem\<close>: the name up to its last dot, when that dot is neither the first nor
  the last character.\<close>

definition stem :: "string \<Rightarrow> string" where
  "stem name =
     (let ext = takeWhile (\<lambda>c. c \<noteq> CHR ''.'') (rev name);
          i = length name - length ext - 1
      in if CHR ''.'' \<in> set name \<and> 0 < i \<and> ext \<noteq> [] then take i name else name)"

section \<open>\<open>export/build_book.py\<close>\<close>

record topic_info =
  title :: string
  description :: string

definition TOPIC_ORDER :: "(string \<times> topic_info) list" where
  "TOPIC_ORDER =
    [(''background-context'',
        \<lparr>title = ''Part I: Background & Context'',
         description = ''Historical context and evolution of ASR technology''\<rparr>),
     (''models'',
        \<lparr>title = ''Part II: ASR Models'',
         description = ''Overview and comparison of ASR models''\<rparr>),
     (''data-preparation'',
        \<lparr>title = ''Part III: Data Preparation'',
         description = ''Audio data preparation and dataset creation''\<rparr>),
     (''fine-tuning'',
        \<lparr>title = ''Part IV: Fine-Tuning'',
         description = ''Fine-tuning strategies and techniques''\<rparr>),
     (''inference'',
        \<lparr>title = ''Part V: Inference & Deployment'',
         description = ''Running and deploying ASR models''\<rparr>),
     (''amd'',
        \<lparr>title = ''Part VI: AMD GPU Optimization'',
         description = ''AMD-specific hardware considerations''\<rparr>),
     (''mobile-asr'',
        \<lparr>title = ''Part VII: Mobile ASR'',
         description = ''Mobile and edge device deployment''\<rparr>),
     (''formats'',
        \<lparr>title = ''Part VIII: File Formats'',
         description = ''Audio and model file formats''\<rparr>),
     (''vocab'',
        \<lparr>title = ''Part IX: Vocabulary & Language'',
         description = ''Vocabulary recognition and language considerations''\<rparr>),
     (''pitfalls'',
        \<lparr>title = ''Part X: Common Pitfalls'',
         description = ''Common issues and how to avoid them''\<rparr>),
     (''q-and-a'',
        \<lparr>title = ''Part XI: Q&A'',
         description = ''Frequently asked questions''\<rparr>),
     (''notes'',
        \<lparr>title = ''Part XII: Additional Notes'',
         description = ''Supplementary topics and observations''\<rparr>)]"

definition clean_title :: "string \<Rightarrow> string" where
  "clean_title filename =
     (let title = str_replace ''-'' '' '' (str_replace ''.md'' '''' filename)
      in str_join '' '' (map str_capitalize (str_split title)))"

text \<open>
  The content root as \<open>collect_files\<close> sees it: the entries of \<open>../notebook\<close> in the order
  \<open>iterdir\<close> yields them, each with its name, whether it is a directory, and the names of
  its children. \<open>glob('*.md')\<close> keeps the children whose name ends in \<open>.md\<close>.
\<close>

record dir_entry =
  entry_name :: string
  is_dir :: bool
  children :: "string list"

definition notebook_dir :: path where
  "notebook_dir = [''..'', ''notebook'']"

definition glob_md :: "dir_entry \<Rightarrow> path list" where
  "glob_md topic_dir =
     map (\<lambda>n. notebook_dir @ [entry_name topic_dir, n])
       (filter (\<lambda>n. suffix ''.md'' n) (children topic_dir))"

definition collect_step :: "(string \<rightharpoonup> path list) \<Rightarrow> dir_entry \<Rightarrow> (string \<rightharpoonup> path list)" where
  "collect_step organized topic_dir =
     (if is_dir topic_dir \<and> entry_name topic_dir \<in> set (map fst TOPIC_ORDER)
      then organized(entry_name topic_dir \<mapsto> sort (glob_md topic_dir))
      else organized)"

definition collect_files :: "dir_entry list \<Rightarrow> (string \<rightharpoonup> path list)" where
  "collect_files notebook =
     foldl collect_step (map_of (map (\<lambda>topic. (fst topic, [])) TOPIC_ORDER)) notebook"

definition toc_step :: "(string \<rightharpoonup> path list) \<Rightarrow> string list \<Rightarrow> string \<times> topic_info \<Rightarrow> string list" where
  "toc_step organized_files toc topic =
     (case organized_files (fst topic) of
        None \<Rightarrow> toc
      | Some fs \<Rightarrow>
          if fs = [] then toc
          else toc @ [''**'' @ title (snd topic) @ ''**  '',
                      description (snd topic) @ '' ('' @ show_nat (length fs) @ '' chapters)'',
                      ''''])"

definition generate_toc :: "(string \<rightharpoonup> path list) \<Rightarrow> string" where
  "generate_toc organized_files =
     (let toc = [''# Speech-to-Text Fine-Tuning Guide'', '''',
                 ''_A Comprehensive Guide to ASR Model Fine-Tuning and Deployment_'', '''',
                 ''---'', '''', ''## Table of Contents'', ''''];
          toc = foldl (toc_step organized_files) toc TOPIC_ORDER;
          toc = toc @ [''---''];
          toc = toc @ ['''']
      in str_join [newline] toc)"

text \<open>Reading a file either raises (\<open>Inl\<close> the exception's message) or gives its text.\<close>

type_synonym reader = "path \<Rightarrow> string + string"

definition read_file_content :: "reader \<Rightarrow> path \<Rightarrow> string" where
  "read_file_content rd file_path =
     (case rd file_path of
        Inr content \<Rightarrow> str_strip content
      | Inl e \<Rightarrow> ''<!-- Error reading '' @ path_str file_path @ '': '' @ e @ '' -->'')"

definition chapter_step :: "reader \<Rightarrow> string list \<Rightarrow> path \<Rightarrow> string list" where
  "chapter_step rd parts file_path =
     (let chapter_title = clean_title (path_name file_path);
          parts = parts @ ['''', ''## '' @ chapter_title, ''''];
          content = read_file_content rd file_path;
          content = re_sub [Bol, Lit ''#'', PlusSpace, StarNot newline, Eol] '''' content
      in parts @ [content, ''''])"

definition topic_step ::
    "reader \<Rightarrow> (string \<rightharpoonup> path list) \<Rightarrow> string list \<Rightarrow> string \<times> topic_info \<Rightarrow> string list" where
  "topic_step rd organized_files parts topic =
     (case organized_files (fst topic) of
        None \<Rightarrow> parts
      | Some fs \<Rightarrow>
          if fs = [] then parts
          else foldl (chapter_step rd)
                 (parts @ ['''', ''# '' @ title (snd topic), '''',
                           ''_'' @ description (snd topic) @ ''_'', '''', ''---'', ''''])
                 fs)"

definition master_parts :: "reader \<Rightarrow> (string \<rightharpoonup> path list) \<Rightarrow> string list" where
  "master_parts rd organized_files =
     foldl (topic_step rd organized_files) [generate_toc organized_files] TOPIC_ORDER"

definition build_master_document :: "reader \<Rightarrow> (string \<rightharpoonup> path list) \<Rightarrow> string" where
  "build_master_document rd organized_files = str_join [newline] (master_parts rd organized_files)"

section \<open>Manifests\<close>

text \<open>
  A manifest entry is the dictionary the scripts append to \<open>manifest["files"]\<close>: its keys
  with their values, in the order written. The status of an entry is the value under the
  key \<open>status\<close>.
\<close>

type_synonym entry = "(string \<times> string) list"

definition status :: "entry \<Rightarrow> string option" where
  "status e = map_of e ''status''"

record manifest =
  generated_at :: string
  total_files :: nat
  files :: "entry list"

text \<open>The two ways a script stops without finishing: \<open>sys.exit(1)\<close>, and an exception no
  handler catches.\<close>

datatype error = SystemExit | Uncaught

section \<open>\<open>scripts/convert-to-ssml.py\<close>\<close>

text \<open>
  The outcome of the request of \<open>convert_to_ssml\<close>: a response whose body has the text at
  \<open>choices[0].message.content\<close>; a \<open>RequestException\<close> (network error, timeout, status
  that is not 2xx, and a body that is not JSON where the library raises it as one); or
  any other exception from decoding or indexing the body, which the function does not
  catch.
\<close>

datatype llm_response = Reply string | RequestException | Malformed

text \<open>
  What a run depends on: the clock, the files \<open>NOTEBOOK_DIR.rglob("*.md")\<close> finds (paths
  relative to \<open>NOTEBOOK_DIR\<close>, in any order), reading a source file, the request (by item
  and content; the content is sent inside the fixed prompt), and writing an output file
  (\<open>None\<close> when it is written, the exception's message otherwise). Creating the output
  directories is taken to succeed.
\<close>

record conv_env =
  conv_now :: string
  md_found :: "path list"
  read_markdown_file :: "path \<Rightarrow> string + string"
  openrouter_post :: "path \<Rightarrow> string \<Rightarrow> llm_response"
  write_ssml :: "path \<Rightarrow> string \<Rightarrow> string option"

definition convert_to_ssml :: "conv_env \<Rightarrow> string \<Rightarrow> path \<Rightarrow> error + string option" where
  "convert_to_ssml env content filename =
     (case openrouter_post env filename content of
        Reply ssml_content \<Rightarrow> Inr (Some ssml_content)
      | RequestException \<Rightarrow> Inr None
      | Malformed \<Rightarrow> Inl Uncaught)"

text \<open>
  The loop of \<open>process_notebook\<close> over the sorted files. The state is the manifest and
  the output files written so far (path relative to \<open>OUTPUT_DIR\<close>, and text).
\<close>

type_synonym conv_state = "manifest \<times> (path \<times> string) list"

definition append_entry :: "entry \<Rightarrow> manifest \<Rightarrow> manifest" where
  "append_entry e m = m\<lparr>files := files m @ [e]\<rparr>"

fun convert_loop :: "conv_env \<Rightarrow> path list \<Rightarrow> conv_state \<Rightarrow> error + conv_state" where
  "convert_loop env [] st = Inr st"
| "convert_loop env (rel_path # rest) (manifest, written) =
     (let ssml_file = path_parent rel_path @ [stem (path_name rel_path) @ ''.ssml'']
      in case read_markdown_file env rel_path of
           Inl e \<Rightarrow> convert_loop env rest (manifest, written)
         | Inr content \<Rightarrow>
             (case convert_to_ssml env content rel_path of
                Inl err \<Rightarrow> Inl err
              | Inr None \<Rightarrow>
                  convert_loop env rest
                    (append_entry
                       [(''source'', path_str rel_path),
                        (''status'', ''conversion_failed'')] manifest,
                     written)
              | Inr (Some ssml_content) \<Rightarrow>
                  if ssml_content \<noteq> []
                  then (case write_ssml env ssml_file ssml_content of
                          None \<Rightarrow>
                            convert_loop env rest
                              (append_entry
                                 [(''source'', path_str rel_path),
                                  (''output'', path_str ssml_file),
                                  (''status'', ''success'')] manifest,
                               written @ [(ssml_file, ssml_content)])
                        | Some e \<Rightarrow>
                            convert_loop env rest
                              (append_entry
                                 [(''source'', path_str rel_path),
                                  (''output'', path_str ssml_file),
                                  (''status'', ''error''),
                                  (''error'', e)] manifest,
                               written))
                  else convert_loop env rest
                         (append_entry
                            [(''source'', path_str rel_path),
                             (''status'', ''conversion_failed'')] manifest,
                          written)))"

definition process_notebook :: "conv_env \<Rightarrow> error + conv_state" where
  "process_notebook env =
     (let md_files = sort (md_found env);
          manifest = \<lparr>generated_at = conv_now env, total_files = length md_files, files = []\<rparr>
      in convert_loop env md_files (manifest, []))"

section \<open>\<open>scripts/generate-podcast.py\<close> and \<open>scripts/generate-podcast-kokoro.py\<close>\<close>

text \<open>
  The manifest file of the conversion stage as the synthesis scripts find it: absent,
  present but not JSON (\<open>json.load\<close> raises), or loaded.
\<close>

datatype manifest_file = Missing | Unparsable | Loaded manifest

text \<open>How an external process ends (\<open>subprocess.run\<close>): with a return code, by the
  timeout, or it cannot be started.\<close>

datatype proc_result = Exit nat | TimeoutExpired | NotStarted

text \<open>The answer of the Hugging Face request: a status code with a body, or an exception.\<close>

datatype http_response = Response nat string | ConnectionError

text \<open>
  What a synthesis run depends on: the clock, the conversion manifest, the files
  \<open>SSML_DIR.rglob("*.ssml")\<close> finds (relative to \<open>SSML_DIR\<close>, in any order), reading a
  speech-markup file, the \<open>edge-tts\<close> process (voice, text, output file), the Hugging Face
  request (by item and text), writing an audio file (whether it succeeds), and the
  \<open>ffmpeg\<close> process (the listed files, the output file). Creating the output directories
  is taken to succeed.
\<close>

record synth_env =
  synth_now :: string
  today :: string
  manifest_json :: manifest_file
  ssml_found :: "path list"
  read_ssml :: "path \<Rightarrow> string + string"
  edge_tts :: "string \<Rightarrow> string \<Rightarrow> path \<Rightarrow> proc_result"
  hf_post :: "path \<Rightarrow> string \<Rightarrow> http_response"
  write_audio :: "path \<Rightarrow> string \<Rightarrow> bool"
  ffmpeg :: "path list \<Rightarrow> path \<Rightarrow> proc_result"

text \<open>What a run does to the outside, in order: the calls of the speech backend (the item
  and the text handed over, whatever the outcome of the call), and the audio files
  produced (the item and the file).\<close>

record trace =
  tts_calls :: "(path \<times> string) list"
  audio_written :: "(path \<times> path) list"

definition DEFAULT_VOICE :: string where
  "DEFAULT_VOICE = ''en-US-AriaNeural''"

definition KOKORO_MODEL :: string where
  "KOKORO_MODEL = ''hexgrad/Kokoro-82M''"

text \<open>\<open>generate-podcast.py\<close>: the content of the file is the \<open>--text\<close> argument as read.\<close>

definition convert_ssml_to_audio ::
    "synth_env \<Rightarrow> path \<Rightarrow> path \<Rightarrow> string \<Rightarrow> trace \<Rightarrow> bool \<times> trace" where
  "convert_ssml_to_audio env ssml_file output_file voice tr =
     (case read_ssml env ssml_file of
        Inl e \<Rightarrow> (False, tr)
      | Inr ssml_content \<Rightarrow>
          (let tr = tr\<lparr>tts_calls := tts_calls tr @ [(ssml_file, ssml_content)]\<rparr>
           in case edge_tts env voice ssml_content output_file of
                Exit returncode \<Rightarrow>
                  if returncode = 0
                  then (True, tr\<lparr>audio_written := audio_written tr @ [(ssml_file, output_file)]\<rparr>)
                  else (False, tr)
              | TimeoutExpired \<Rightarrow> (False, tr)
              | NotStarted \<Rightarrow> (False, tr)))"

definition strip_ssml_tags :: "string \<Rightarrow> string" where
  "strip_ssml_tags ssml_content =
     (let text = re_sub [Lit ''<?xml'', StarNot CHR ''>'', Lit ''?>''] '''' ssml_content;
          text = re_sub [Lit ''<speak'', StarNot CHR ''>'', Lit ''>''] '''' text;
          text = re_sub [Lit ''</speak>''] '''' text;
          text = re_sub [Lit ''<break'', StarNot CHR ''>'', Opt CHR ''/'', Lit ''>''] '' '' text;
          text = re_sub [Lit ''<prosody'', StarNot CHR ''>'', Lit ''>''] '''' text;
          text = re_sub [Lit ''</prosody>''] '''' text;
          text = re_sub [Lit ''<emphasis'', StarNot CHR ''>'', Lit ''>''] '''' text;
          text = re_sub [Lit ''</emphasis>''] '''' text;
          text = re_sub [Lit ''<say-as'', StarNot CHR ''>'', Lit ''>''] '''' text;
          text = re_sub [Lit ''</say-as>''] '''' text;
          text = re_sub [Lit ''<p>''] [newline, newline] text;
          text = re_sub [Lit ''</p>''] [newline, newline] text;
          text = re_sub [PlusSpace] '' '' text;
          text = str_strip text
      in text)"

definition convert_ssml_to_audio_kokoro ::
    "synth_env \<Rightarrow> path \<Rightarrow> path \<Rightarrow> trace \<Rightarrow> bool \<times> trace" where
  "convert_ssml_to_audio_kokoro env ssml_file output_file tr =
     (case read_ssml env ssml_file of
        Inl e \<Rightarrow> (False, tr)
      | Inr ssml_content \<Rightarrow>
          (let text = strip_ssml_tags ssml_content
           in if text = [] then (False, tr)
              else (let tr = tr\<lparr>tts_calls := tts_calls tr @ [(ssml_file, text)]\<rparr>
                    in case hf_post env ssml_file text of
                         ConnectionError \<Rightarrow> (False, tr)
                       | Response status_code body \<Rightarrow>
                           if status_code = 200
                           then (if write_audio env output_file body
                                 then (True, tr\<lparr>audio_written :=
                                                    audio_written tr @ [(ssml_file, output_file)]\<rparr>)
                                 else (False, tr))
                           else (False, tr))))"

text \<open>\<open>concatenate_audio_files\<close> (the same in both scripts): whether \<open>ffmpeg\<close>, given the
  list of the audio files, returns 0.\<close>

definition concatenate_audio_files :: "synth_env \<Rightarrow> path list \<Rightarrow> path \<Rightarrow> bool" where
  "concatenate_audio_files env audio_files output_file =
     (case ffmpeg env audio_files output_file of
        Exit returncode \<Rightarrow> returncode = 0
      | TimeoutExpired \<Rightarrow> False
      | NotStarted \<Rightarrow> False)"

text \<open>
  The podcast manifest: the manifest fields, the settings of the engine, and
  \<open>full_podcast\<close> (file and track count; the size in megabytes is left out) once the
  concatenation has succeeded.
\<close>

record podcast_manifest = manifest +
  settings :: "(string \<times> string) list"
  full_podcast :: "(string \<times> nat) option"

text \<open>The state of the loop of \<open>process_ssml_directory\<close>: the entries appended so far,
  \<open>audio_files\<close>, and the trace.\<close>

type_synonym synth_state = "entry list \<times> path list \<times> trace"

definition synth_step ::
    "(path \<Rightarrow> path \<Rightarrow> trace \<Rightarrow> bool \<times> trace) \<Rightarrow> string \<Rightarrow> synth_state \<Rightarrow> path \<Rightarrow> synth_state" where
  "synth_step convert ext st rel_path =
     (case st of (entries, audio_files, tr) \<Rightarrow>
        (let audio_file = path_parent rel_path @ [stem (path_name rel_path) @ ext]
         in case convert rel_path audio_file tr of (success, tr') \<Rightarrow>
              if success
              then (entries @ [[(''ssml_source'', path_str rel_path),
                                (''audio_output'', path_str audio_file),
                                (''status'', ''success'')]],
                    audio_files @ [audio_file], tr')
              else (entries @ [[(''ssml_source'', path_str rel_path),
                                (''status'', ''failed'')]],
                    audio_files, tr')))"

definition finish ::
    "synth_env \<Rightarrow> bool \<Rightarrow> string \<Rightarrow> podcast_manifest \<Rightarrow> synth_state \<Rightarrow> podcast_manifest \<times> trace" where
  "finish env concatenate ext podcast_manifest st =
     (case st of (entries, audio_files, tr) \<Rightarrow>
        (let podcast_manifest = podcast_manifest\<lparr>files := entries\<rparr>;
             full_podcast_file = [''stt-finetune-podcast-'' @ today env @ ext]
         in if concatenate \<and> audio_files \<noteq> []
               \<and> concatenate_audio_files env audio_files full_podcast_file
            then (podcast_manifest\<lparr>full_podcast :=
                     Some (path_str full_podcast_file, length audio_files)\<rparr>, tr)
            else (podcast_manifest, tr)))"

text \<open>\<open>process_ssml_directory\<close> of \<open>generate-podcast.py\<close>.\<close>

definition process_ssml_directory ::
    "synth_env \<Rightarrow> string \<Rightarrow> bool \<Rightarrow> error + podcast_manifest \<times> trace" where
  "process_ssml_directory env voice concatenate =
     (case manifest_json env of
        Missing \<Rightarrow> Inl SystemExit
      | Unparsable \<Rightarrow> Inl Uncaught
      | Loaded manifest \<Rightarrow>
          (let ssml_files = sort (ssml_found env)
           in if ssml_files = [] then Inl SystemExit
              else
                (let podcast_manifest =
                       \<lparr>generated_at = synth_now env, total_files = length ssml_files,
                        files = [], settings = [(''voice'', voice)], full_podcast = None\<rparr>;
                     st = foldl (synth_step (\<lambda>ssml_file audio_file.
                                    convert_ssml_to_audio env ssml_file audio_file voice) ''.mp3'')
                            ([], [], \<lparr>tts_calls = [], audio_written = []\<rparr>) ssml_files
                 in Inr (finish env concatenate ''.mp3'' podcast_manifest st))))"

text \<open>\<open>process_ssml_directory\<close> of \<open>generate-podcast-kokoro.py\<close>.\<close>

definition process_ssml_directory_kokoro ::
    "synth_env \<Rightarrow> bool \<Rightarrow> error + podcast_manifest \<times> trace" where
  "process_ssml_directory_kokoro env concatenate =
     (case manifest_json env of
        Missing \<Rightarrow> Inl SystemExit
      | Unparsable \<Rightarrow> Inl Uncaught
      | Loaded manifest \<Rightarrow>
          (let ssml_files = sort (ssml_found env)
           in if ssml_files = [] then Inl SystemExit
              else
                (let podcast_manifest =
                       \<lparr>generated_at = synth_now env, total_files = length ssml_files,
                        files = [],
                        settings = [(''tts_engine'', ''kokoro-82m''), (''model'', KOKORO_MODEL)],
                        full_podcast = None\<rparr>;
                     st = foldl (synth_step (convert_ssml_to_audio_kokoro env) ''.wav'')
                            ([], [], \<lparr>tts_calls = [], audio_written = []\<rparr>) ssml_files
                 in Inr (finish env concatenate ''.wav'' podcast_manifest st))))"

section \<open>Notions used in the properties\<close>

text \<open>The entries of a finished run, when it finishes.\<close>

definition run_files :: "error + ('a manifest_scheme \<times> 'b) \<Rightarrow> entry list option" where
  "run_files r = (case r of Inl e \<Rightarrow> None | Inr (m, x) \<Rightarrow> Some (files m))"

text \<open>\<open>occurs old s\<close>: the string \<open>old\<close> occurs in \<open>s\<close>.\<close>

fun occurs :: "string \<Rightarrow> string \<Rightarrow> bool" where
  "occurs old [] = (old = [])"
| "occurs old (c # cs) = (prefix old (c # cs) \<or> occurs old cs)"





text \<open>
  The sections of the aggregated document: a topic is present when the catalog has at
  least one file for it; \<open>chapters\<close> are the files of a topic; \<open>toc_lines\<close>,
  \<open>topic_section\<close> and \<open>chapter_parts\<close> are the lines one topic contributes to the table
  of contents, one topic to the body, and one file to its topic.
\<close>

definition present :: "(string \<rightharpoonup> path list) \<Rightarrow> string \<times> topic_info \<Rightarrow> bool" where
  "present organized_files topic =
     (case organized_files (fst topic) of None \<Rightarrow> False | Some fs \<Rightarrow> fs \<noteq> [])"

definition chapters :: "(string \<rightharpoonup> path list) \<Rightarrow> string \<Rightarrow> path list" where
  "chapters organized_files k = (case organized_files k of None \<Rightarrow> [] | Some fs \<Rightarrow> fs)"

definition toc_lines :: "(string \<rightharpoonup> path list) \<Rightarrow> string \<times> topic_info \<Rightarrow> string list" where
  "toc_lines organized_files topic =
     [''**'' @ title (snd topic) @ ''**  '',
      description (snd topic) @ '' ('' @ show_nat (length (chapters organized_files (fst topic)))
        @ '' chapters)'',
      '''']"

definition chapter_parts :: "reader \<Rightarrow> path \<Rightarrow> string list" where
  "chapter_parts rd file_path =
     ['''', ''## '' @ clean_title (path_name file_path), '''',
      re_sub [Bol, Lit ''#'', PlusSpace, StarNot newline, Eol] '''' (read_file_content rd file_path),
      '''']"

definition topic_heading :: "string \<times> topic_info \<Rightarrow> string list" where
  "topic_heading topic =
     ['''', ''# '' @ title (snd topic), '''', ''_'' @ description (snd topic) @ ''_'', '''',
      ''---'', '''']"

definition topic_section ::
    "reader \<Rightarrow> (string \<rightharpoonup> path list) \<Rightarrow> string \<times> topic_info \<Rightarrow> string list" where
  "topic_section rd organized_files topic =
     topic_heading topic @ concat (map (chapter_parts rd) (chapters organized_files (fst topic)))"

definition sections ::
    "reader \<Rightarrow> (string \<rightharpoonup> path list) \<Rightarrow> (string \<times> topic_info) list \<Rightarrow> string list" where
  "sections rd organized_files topics =
     concat (map (topic_section rd organized_files) (filter (present organized_files) topics))"

definition toc_head :: "string list" where
  "toc_head =
     [''# Speech-to-Text Fine-Tuning Guide'', '''',
      ''_A Comprehensive Guide to ASR Model Fine-Tuning and Deployment_'', '''',
      ''---'', '''', ''## Table of Contents'', '''']"

section \<open>Example inputs\<close>

text \<open>A content root and readers for the aggregator.\<close>

definition example_notebook :: "dir_entry list" where
  "example_notebook =
     [\<lparr>entry_name = ''notes'', is_dir = True, children = [''b-x.md'', ''a.md'', ''c.txt'']\<rparr>,
      \<lparr>entry_name = ''drafts'', is_dir = True, children = [''q.md'']\<rparr>,
      \<lparr>entry_name = ''amd'', is_dir = True, children = [''zen.md'', ''rocm.md'']\<rparr>,
      \<lparr>entry_name = ''models'', is_dir = True, children = []\<rparr>,
      \<lparr>entry_name = ''README.md'', is_dir = False, children = []\<rparr>]"

definition example_reader :: reader where
  "example_reader p =
     (if p = [''..'', ''notebook'', ''amd'', ''rocm.md''] then Inl ''denied''
      else Inr (''# Top'' @ [newline] @ ''## Sub'' @ [newline] @ ''body ''))"

definition bare_hash_reader :: reader where
  "bare_hash_reader p = Inr (''#'' @ [newline] @ ''## Details'' @ [newline] @ ''text'')"



text \<open>Environments of a conversion run and of a synthesis run.\<close>

definition example_conv_env :: conv_env where
  "example_conv_env =
     \<lparr>conv_now = ''2025-01-01T00:00:00'',
      md_found = [[''notes'', ''misc.md''], [''amd'', ''rocm.md''], [''models'', ''whisper.md'']],
      read_markdown_file = (\<lambda>p. Inr ''# Title''),
      openrouter_post =
        (\<lambda>p content. if p = [''models'', ''whisper.md''] then RequestException
                     else Reply ''<speak>Title</speak>''),
      write_ssml = (\<lambda>p text. if p = [''notes'', ''misc.ssml''] then Some ''disk full'' else None)\<rparr>"


definition example_conversion_manifest :: manifest where
  "example_conversion_manifest =
     \<lparr>generated_at = ''2025-01-01T00:00:00'', total_files = 7,
      files =
        [[(''source'', ''amd/rocm.md''), (''output'', ''amd/rocm.ssml''), (''status'', ''success'')],
         [(''source'', ''fine-tuning/lora.md''), (''output'', ''fine-tuning/lora.ssml''),
          (''status'', ''success'')],
         [(''source'', ''models/whisper.md''), (''output'', ''models/whisper.ssml''),
          (''status'', ''success'')],
         [(''source'', ''notes/empty.md''), (''status'', ''conversion_failed'')],
         [(''source'', ''notes/misc.md''), (''output'', ''notes/misc.ssml''), (''status'', ''success'')],
         [(''source'', ''q-and-a/faq.md''), (''status'', ''conversion_failed'')],
         [(''source'', ''vocab/terms.md''), (''output'', ''vocab/terms.ssml''),
          (''status'', ''success'')]]\<rparr>"

definition example_synth_env :: synth_env where
  "example_synth_env =
     \<lparr>synth_now = ''2025-01-02T00:00:00'',
      today = ''20250102'',
      manifest_json = Loaded example_conversion_manifest,
      ssml_found =
        [[''vocab'', ''terms.ssml''], [''amd'', ''rocm.ssml''], [''fine-tuning'', ''lora.ssml''],
         [''models'', ''whisper.ssml''], [''notes'', ''empty.ssml''], [''notes'', ''misc.ssml''],
         [''q-and-a'', ''faq.ssml'']],
      read_ssml =
        (\<lambda>p. if p = [''notes'', ''empty.ssml''] then Inr ''<speak> </speak>''
             else Inr ''<speak>Hello</speak>''),
      edge_tts = (\<lambda>voice text output. Exit 0),
      hf_post = (\<lambda>p text. Response 200 ''RIFF''),
      write_audio = (\<lambda>p body. True),
      ffmpeg = (\<lambda>listed output. Exit 0)\<rparr>"

definition no_trace :: trace where
  "no_trace = \<lparr>tts_calls = [], audio_written = []\<rparr>"

section \<open>The markup-stripping transform\<close>

subsection \<open>Text without markup\<close>
















lemma rstrip_Cons_other: "\<not> is_space c \<Longrightarrow> rstrip (c # s) = c # rstrip s"
  by (simp add: Let_def)

















section \<open>Title derivation\<close>

lemma str_replace_absent:
  "old \<noteq> [] \<Longrightarrow> \<not> occurs old s \<Longrightarrow> str_replace old new s = s"
  by (induction s) auto









section \<open>The aggregated document\<close>

lemma foldl_chapter_step:
  "foldl (chapter_step rd) parts fs = parts @ concat (map (chapter_parts rd) fs)"
  by (induction fs arbitrary: parts) (simp_all add: chapter_step_def chapter_parts_def Let_def)

lemma topic_step_eq:
  "topic_step rd org parts topic =
     (if present org topic then parts @ topic_section rd org topic else parts)"
  by (simp add: topic_step_def present_def topic_section_def topic_heading_def chapters_def
      foldl_chapter_step split: option.split)

lemma foldl_topic_step:
  "foldl (topic_step rd org) parts ts = parts @ sections rd org ts"
  by (induction ts arbitrary: parts) (simp_all add: topic_step_eq sections_def)

lemma master_parts_eq:
  "master_parts rd org = generate_toc org # sections rd org TOPIC_ORDER"
  by (simp add: master_parts_def foldl_topic_step)

lemma toc_step_eq:
  "toc_step org toc topic = (if present org topic then toc @ toc_lines org topic else toc)"
  by (simp add: toc_step_def present_def toc_lines_def chapters_def split: option.split)

lemma foldl_toc_step:
  "foldl (toc_step org) toc ts = toc @ concat (map (toc_lines org) (filter (present org) ts))"
  by (induction ts arbitrary: toc) (simp_all add: toc_step_eq)

lemma generate_toc_eq:
  "generate_toc org =
     str_join [newline]
       (toc_head @ concat (map (toc_lines org) (filter (present org) TOPIC_ORDER)) @ [''---'', ''''])"
  by (simp add: generate_toc_def Let_def foldl_toc_step toc_head_def)

lemma append_single_le: "(pre @ [a] \<le> pre @ [b]) = (a \<le> (b :: 'a :: linorder))"
  by (induction pre) auto

lemma path_name_snoc: "path_name (pre @ [n]) = n"
  by (simp add: path_name_def)

lemma sorted_names_same_dir:
  "sorted (map path_name (sort (map (\<lambda>n. pre @ [n]) ns)))"
proof -
  let ?ys = "sort (map (\<lambda>n. pre @ [n]) ns)"
  have "sorted_wrt (\<lambda>x y. path_name x \<le> path_name y) ?ys"
  proof (rule sorted_wrt_mono_rel [where P = "(\<le>)"])
    fix x y
    assume "x \<in> set ?ys" "y \<in> set ?ys" "x \<le> y"
    then obtain a b where "x = pre @ [a]" "y = pre @ [b]" "pre @ [a] \<le> pre @ [b]"
      by auto
    then show "path_name x \<le> path_name y"
      by (simp add: append_single_le path_name_snoc)
  next
    show "sorted_wrt (\<le>) ?ys"
      by simp
  qed
  then show ?thesis
    by (simp add: sorted_map)
qed

lemma sorted_glob_md: "sorted (map path_name (sort (glob_md d)))"
proof -
  have "glob_md d = map (\<lambda>n. (notebook_dir @ [entry_name d]) @ [n])
                      (filter (\<lambda>n. suffix ''.md'' n) (children d))"
    by (simp add: glob_md_def)
  then show ?thesis
    by (simp only: sorted_names_same_dir)
qed

lemma collect_step_sorted:
  assumes "\<And>k fs. org k = Some fs \<Longrightarrow> sorted (map path_name fs)"
    and "collect_step org d k = Some fs"
  shows "sorted (map path_name fs)"
  using assms sorted_glob_md
  by (auto simp: collect_step_def split: if_splits)

lemma foldl_collect_sorted:
  assumes "\<And>k fs. org k = Some fs \<Longrightarrow> sorted (map path_name fs)"
    and "foldl collect_step org nb k = Some fs"
  shows "sorted (map path_name fs)"
  using assms
proof (induction nb arbitrary: org k fs)
  case Nil
  then show ?case by simp
next
  case (Cons d nb)
  show ?case
  proof (rule Cons.IH [where org = "collect_step org d"])
    fix k' fs'
    assume "collect_step org d k' = Some fs'"
    then show "sorted (map path_name fs')"
      using Cons.prems(1) collect_step_sorted by blast
  next
    show "foldl collect_step (collect_step org d) nb k = Some fs"
      using Cons.prems(2) by simp
  qed
qed

lemma initial_catalog_empty:
  "map_of (map (\<lambda>topic. (fst topic, [])) ts) k = Some fs \<Longrightarrow> fs = []"
  by (induction ts) (auto split: if_splits)

lemma chapters_sorted: "sorted (map path_name (chapters (collect_files nb) k))"
proof (cases "collect_files nb k")
  case None
  then show ?thesis by (simp add: chapters_def)
next
  case (Some fs)
  have "sorted (map path_name fs)"
  proof (rule foldl_collect_sorted)
    fix k' fs'
    assume "map_of (map (\<lambda>topic. (fst topic, [])) TOPIC_ORDER) k' = Some (fs' :: path list)"
    then have "fs' = []" by (rule initial_catalog_empty)
    then show "sorted (map path_name fs')" by simp
  next
    show "foldl collect_step (map_of (map (\<lambda>topic. (fst topic, [])) TOPIC_ORDER)) nb k = Some fs"
      using Some by (simp add: collect_files_def)
  qed
  with Some show ?thesis by (simp add: chapters_def)
qed

lemma foldl_collect_other:
  "entry_name d \<notin> entry_name ` set nb \<Longrightarrow> foldl collect_step org nb (entry_name d) = org (entry_name d)"
  by (induction nb arbitrary: org) (auto simp: collect_step_def)

lemma foldl_collect_topic:
  assumes "distinct (map entry_name nb)" "d \<in> set nb" "is_dir d"
    "entry_name d \<in> set (map fst TOPIC_ORDER)"
  shows "foldl collect_step org nb (entry_name d) = Some (sort (glob_md d))"
  using assms
proof (induction nb arbitrary: org)
  case Nil
  then show ?case by simp
next
  case (Cons x nb)
  show ?case
  proof (cases "x = d")
    case True
    with Cons.prems have "entry_name d \<notin> entry_name ` set nb"
      by auto
    then have "foldl collect_step (collect_step org d) nb (entry_name d)
               = collect_step org d (entry_name d)"
      by (rule foldl_collect_other)
    moreover have "collect_step org d (entry_name d) = Some (sort (glob_md d))"
      using Cons.prems(3,4) by (simp add: collect_step_def)
    ultimately show ?thesis
      using True by simp
  next
    case False
    with Cons.prems have "d \<in> set nb" "distinct (map entry_name nb)"
      by auto
    then show ?thesis
      using Cons.IH Cons.prems(3,4) by simp
  qed
qed

lemma chapters_topic:
  assumes "distinct (map entry_name nb)" "d \<in> set nb" "is_dir d"
    "entry_name d \<in> set (map fst TOPIC_ORDER)"
  shows "chapters (collect_files nb) (entry_name d) = sort (glob_md d)"
  using foldl_collect_topic [OF assms] by (simp add: chapters_def collect_files_def)

text \<open>
  Claim C6. For a content root whose entries have distinct names, the aggregated document
  is the table of contents followed by the sections of the present topics in the order
  of \<open>TOPIC_ORDER\<close>; the table of contents lists the same topics in the same order; a
  topic without files is in neither. The chapters of a topic are in the order of their
  file names, and for a topic directory they are its \<open>*.md\<close> files, sorted.
\<close>

theorem aggregated_document_order:
  assumes "distinct (map entry_name notebook)" and "org = collect_files notebook"
  shows "build_master_document rd org
           = str_join [newline] (generate_toc org # sections rd org TOPIC_ORDER)
         \<and> generate_toc org
           = str_join [newline]
               (toc_head @ concat (map (toc_lines org) (filter (present org) TOPIC_ORDER))
                  @ [''---'', ''''])
         \<and> (\<forall>k. sorted (map path_name (chapters org k)))
         \<and> (\<forall>d \<in> set notebook.
               is_dir d \<and> entry_name d \<in> set (map fst TOPIC_ORDER)
               \<longrightarrow> chapters org (entry_name d) = sort (glob_md d))"
proof (intro conjI allI ballI impI)
  show "build_master_document rd org
          = str_join [newline] (generate_toc org # sections rd org TOPIC_ORDER)"
    by (simp only: build_master_document_def master_parts_eq)
  show "generate_toc org
          = str_join [newline]
              (toc_head @ concat (map (toc_lines org) (filter (present org) TOPIC_ORDER))
                 @ [''---'', ''''])"
    by (rule generate_toc_eq)
next
  fix k
  show "sorted (map path_name (chapters org k))"
    unfolding assms(2) by (rule chapters_sorted)
next
  fix d
  assume "d \<in> set notebook" "is_dir d \<and> entry_name d \<in> set (map fst TOPIC_ORDER)"
  then show "chapters org (entry_name d) = sort (glob_md d)"
    unfolding assms(2) using chapters_topic [OF assms(1)] by blast
qed

text \<open>The example root: \<open>amd\<close> and \<open>notes\<close> are present (in this order, whatever the
  order of the directory listing), \<open>models\<close> is empty and \<open>drafts\<close> is no topic.\<close>

theorem aggregated_document_order_witness:
  "distinct (map entry_name example_notebook)
   \<and> map fst (filter (present (collect_files example_notebook)) TOPIC_ORDER) = [''amd'', ''notes'']
   \<and> chapters (collect_files example_notebook) ''notes''
       = [[''..'', ''notebook'', ''notes'', ''a.md''], [''..'', ''notebook'', ''notes'', ''b-x.md'']]
   \<and> sorted (map path_name (chapters (collect_files example_notebook) ''notes''))
   \<and> build_master_document example_reader (collect_files example_notebook)
       = str_join [newline]
           (generate_toc (collect_files example_notebook)
              # sections example_reader (collect_files example_notebook) TOPIC_ORDER)"
proof -
  have wf: "distinct (map entry_name example_notebook)"
    by (simp add: example_notebook_def)
  have topics: "map fst (filter (present (collect_files example_notebook)) TOPIC_ORDER)
                  = [''amd'', ''notes'']"
    by code_simp
  have chs: "chapters (collect_files example_notebook) ''notes''
       = [[''..'', ''notebook'', ''notes'', ''a.md''], [''..'', ''notebook'', ''notes'', ''b-x.md'']]"
    by code_simp
  from aggregated_document_order [OF wf refl, of example_reader] wf topics chs
  show ?thesis
    by blast
qed

text \<open>
  Claim C7 says that a line beginning with \<open>##\<close> is kept unchanged. In \<open>^#\s+.*$\<close> the
  \<open>\s+\<close> also matches line breaks: after a line that holds \<open>#\<close> alone the match runs
  on through the next line. For the body \<open>#\<close>, \<open>## Details\<close>, \<open>text\<close> the chapter keeps
  only an empty line and \<open>text\<close>; the line \<open>## Details\<close> is gone.
\<close>

theorem heading_removal_swallows_next_line:
  "chapter_step bare_hash_reader [] [''..'', ''notebook'', ''notes'', ''x.md'']
     = ['''', ''## X'', '''', newline # ''text'', '''']"
  by code_simp









section \<open>The conversion and synthesis stages\<close>

subsection \<open>The conversion loop\<close>

lemma files_append_entry: "files (append_entry e m) = files m @ [e]"
  by (simp add: append_entry_def)

lemma convert_loop_statuses:
  "convert_loop env ps st = Inr st' \<Longrightarrow> e \<in> set (files (fst st')) \<Longrightarrow>
   e \<in> set (files (fst st))
   \<or> status e \<in> {Some ''success'', Some ''error'', Some ''conversion_failed''}"
proof (induction env ps st rule: convert_loop.induct)
  case (1 env st)
  then show ?case by simp
next
  case (2 env rel_path rest manifest written)
  show ?case
  proof (cases "read_markdown_file env rel_path")
    case (Inl err)
    with 2 show ?thesis by simp
  next
    case (Inr content)
    show ?thesis
    proof (cases "convert_to_ssml env content rel_path")
      case (Inl err)
      with 2 Inr show ?thesis by simp
    next
      case r: (Inr ssml_content)
      with 2 Inr show ?thesis
        by (fastforce simp: Let_def files_append_entry status_def
            split: option.splits if_splits)
    qed
  qed
qed

lemma convert_loop_complete:
  assumes "\<forall>p \<in> set ps. \<exists>content. read_markdown_file env p = Inr content
                           \<and> openrouter_post env p content \<noteq> Malformed"
  shows "\<exists>m' w'. convert_loop env ps (m, w) = Inr (m', w')
           \<and> map (\<lambda>e. map_of e ''source'') (files m')
               = map (\<lambda>e. map_of e ''source'') (files m) @ map (\<lambda>p. Some (path_str p)) ps"
  using assms
proof (induction ps arbitrary: m w)
  case Nil
  then show ?case by simp
next
  case (Cons p ps)
  then obtain content where rd: "read_markdown_file env p = Inr content"
    and post: "openrouter_post env p content \<noteq> Malformed"
    by auto
  have rest: "\<forall>p \<in> set ps. \<exists>content. read_markdown_file env p = Inr content
                           \<and> openrouter_post env p content \<noteq> Malformed"
    using Cons.prems by simp
  note IH = Cons.IH [OF rest]
  show ?case
  proof (cases "openrouter_post env p content")
    case (Reply s)
    show ?thesis
    proof (cases "s = []")
      case True
      with rd Reply IH [of "append_entry [(''source'', path_str p), (''status'', ''conversion_failed'')] m" w]
      show ?thesis
        by (simp add: convert_to_ssml_def files_append_entry Let_def)
    next
      case False
      show ?thesis
      proof (cases "write_ssml env (path_parent p @ [stem (path_name p) @ ''.ssml'']) s")
        case None
        with False rd Reply
          IH [of "append_entry [(''source'', path_str p),
                   (''output'', path_str (path_parent p @ [stem (path_name p) @ ''.ssml''])),
                   (''status'', ''success'')] m"
                 "w @ [(path_parent p @ [stem (path_name p) @ ''.ssml''], s)]"]
        show ?thesis
          by (simp add: convert_to_ssml_def files_append_entry Let_def)
      next
        case (Some err)
        with False rd Reply
          IH [of "append_entry [(''source'', path_str p),
                   (''output'', path_str (path_parent p @ [stem (path_name p) @ ''.ssml''])),
                   (''status'', ''error''), (''error'', err)] m" w]
        show ?thesis
          by (simp add: convert_to_ssml_def files_append_entry Let_def)
      qed
    qed
  next
    case RequestException
    with rd IH [of "append_entry [(''source'', path_str p), (''status'', ''conversion_failed'')] m" w]
    show ?thesis
      by (simp add: convert_to_ssml_def files_append_entry Let_def)
  next
    case Malformed
    with post show ?thesis by simp
  qed
qed


subsection \<open>The synthesis loop\<close>

lemma synth_step_statuses:
  "synth_step convert ext st p = st' \<Longrightarrow> e \<in> set (fst st') \<Longrightarrow>
   e \<in> set (fst st) \<or> status e \<in> {Some ''success'', Some ''failed''}"
  by (auto simp: synth_step_def Let_def status_def split: prod.splits if_splits)

lemma foldl_synth_statuses:
  "e \<in> set (fst (foldl (synth_step convert ext) st ps)) \<Longrightarrow>
   e \<in> set (fst st) \<or> status e \<in> {Some ''success'', Some ''failed''}"
proof (induction ps arbitrary: st)
  case Nil
  then show ?case by simp
next
  case (Cons p ps)
  from Cons.IH [of "synth_step convert ext st p"] Cons.prems
  have "e \<in> set (fst (synth_step convert ext st p))
        \<or> status e \<in> {Some ''success'', Some ''failed''}"
    by simp
  then show ?case
    using synth_step_statuses [OF refl] by blast
qed

lemma synth_step_sources:
  "map (\<lambda>e. map_of e ''ssml_source'') (fst (synth_step convert ext st p))
     = map (\<lambda>e. map_of e ''ssml_source'') (fst st) @ [Some (path_str p)]"
  by (auto simp: synth_step_def Let_def split: prod.splits)

lemma foldl_synth_sources:
  "map (\<lambda>e. map_of e ''ssml_source'') (fst (foldl (synth_step convert ext) st ps))
     = map (\<lambda>e. map_of e ''ssml_source'') (fst st) @ map (\<lambda>p. Some (path_str p)) ps"
  by (induction ps arbitrary: st) (simp_all add: synth_step_sources)

lemma files_finish:
  "files (fst (finish env concatenate ext pm st)) = fst st"
  by (simp add: finish_def Let_def split: prod.splits)

lemma trace_finish:
  "snd (finish env concatenate ext pm st) = snd (snd st)"
  by (simp add: finish_def Let_def split: prod.splits)

lemma edge_run:
  assumes "manifest_json env = Loaded m" "ssml_found env \<noteq> []"
  shows "process_ssml_directory env voice concatenate =
           Inr (finish env concatenate ''.mp3''
                  \<lparr>generated_at = synth_now env, total_files = length (ssml_found env),
                   files = [], settings = [(''voice'', voice)], full_podcast = None\<rparr>
                  (foldl (synth_step (\<lambda>ssml_file audio_file.
                            convert_ssml_to_audio env ssml_file audio_file voice) ''.mp3'')
                     ([], [], \<lparr>tts_calls = [], audio_written = []\<rparr>) (sort (ssml_found env))))"
proof -
  have "sort (ssml_found env) \<noteq> []"
    using assms(2) by (metis length_sort length_0_conv)
  then show ?thesis
    using assms(1) by (simp add: process_ssml_directory_def Let_def)
qed

lemma kokoro_run:
  assumes "manifest_json env = Loaded m" "ssml_found env \<noteq> []"
  shows "process_ssml_directory_kokoro env concatenate =
           Inr (finish env concatenate ''.wav''
                  \<lparr>generated_at = synth_now env, total_files = length (ssml_found env),
                   files = [],
                   settings = [(''tts_engine'', ''kokoro-82m''), (''model'', KOKORO_MODEL)],
                   full_podcast = None\<rparr>
                  (foldl (synth_step (convert_ssml_to_audio_kokoro env) ''.wav'')
                     ([], [], \<lparr>tts_calls = [], audio_written = []\<rparr>) (sort (ssml_found env))))"
proof -
  have "sort (ssml_found env) \<noteq> []"
    using assms(2) by (metis length_sort length_0_conv)
  then show ?thesis
    using assms(1) by (simp add: process_ssml_directory_kokoro_def Let_def)
qed

lemma edge_run_cases:
  assumes "process_ssml_directory env voice concatenate = Inr r"
  obtains m where "manifest_json env = Loaded m" "ssml_found env \<noteq> []"
  using assms
  by (cases "manifest_json env"; cases "ssml_found env = []")
     (auto simp: process_ssml_directory_def Let_def)

lemma kokoro_run_cases:
  assumes "process_ssml_directory_kokoro env concatenate = Inr r"
  obtains m where "manifest_json env = Loaded m" "ssml_found env \<noteq> []"
  using assms
  by (cases "manifest_json env"; cases "ssml_found env = []")
     (auto simp: process_ssml_directory_kokoro_def Let_def)

subsection \<open>Backend calls\<close>

lemma edge_calls:
  assumes "read_ssml env ssml_file = Inr ssml_content"
  shows "tts_calls (snd (convert_ssml_to_audio env ssml_file output_file voice tr))
           = tts_calls tr @ [(ssml_file, ssml_content)]"
  using assms
  by (simp add: convert_ssml_to_audio_def Let_def split: proc_result.split)

lemma kokoro_calls:
  assumes "read_ssml env ssml_file = Inr ssml_content"
  shows "tts_calls (snd (convert_ssml_to_audio_kokoro env ssml_file output_file tr))
           = tts_calls tr @ (if strip_ssml_tags ssml_content = [] then []
                             else [(ssml_file, strip_ssml_tags ssml_content)])"
  using assms
  by (simp add: convert_ssml_to_audio_kokoro_def Let_def split: http_response.split)

lemma kokoro_empty:
  assumes "read_ssml env ssml_file = Inr ssml_content" "strip_ssml_tags ssml_content = []"
  shows "convert_ssml_to_audio_kokoro env ssml_file output_file tr = (False, tr)"
  using assms by (simp add: convert_ssml_to_audio_kokoro_def)

lemma kokoro_items:
  "fst ` set (tts_calls (snd (convert_ssml_to_audio_kokoro env p out tr)))
     \<subseteq> insert p (fst ` set (tts_calls tr))
   \<and> fst ` set (audio_written (snd (convert_ssml_to_audio_kokoro env p out tr)))
     \<subseteq> insert p (fst ` set (audio_written tr))"
  by (auto simp: convert_ssml_to_audio_kokoro_def Let_def split: sum.splits http_response.splits)

lemma kokoro_step_trace:
  assumes "read_ssml env q = Inr c" "strip_ssml_tags c = []"
    and "q \<notin> fst ` set (tts_calls (snd (snd st)))"
    and "q \<notin> fst ` set (audio_written (snd (snd st)))"
  shows "q \<notin> fst ` set (tts_calls (snd (snd (synth_step (convert_ssml_to_audio_kokoro env) ext st p))))
       \<and> q \<notin> fst ` set (audio_written (snd (snd (synth_step (convert_ssml_to_audio_kokoro env) ext st p))))"
proof (cases "p = q")
  case True
  obtain es afs tr where st: "st = (es, afs, tr)"
    by (cases st) auto
  show ?thesis
    using assms(3,4) unfolding st True
    by (simp add: synth_step_def Let_def kokoro_empty [OF assms(1,2)])
next
  case False
  obtain es afs tr where st: "st = (es, afs, tr)"
    by (cases st) auto
  obtain ok tr' where c: "convert_ssml_to_audio_kokoro env p
      (path_parent p @ [stem (path_name p) @ ext]) tr = (ok, tr')"
    by (cases "convert_ssml_to_audio_kokoro env p (path_parent p @ [stem (path_name p) @ ext]) tr")
  from kokoro_items [of env p "path_parent p @ [stem (path_name p) @ ext]" tr] c
  have "fst ` set (tts_calls tr') \<subseteq> insert p (fst ` set (tts_calls tr))"
    and "fst ` set (audio_written tr') \<subseteq> insert p (fst ` set (audio_written tr))"
    by simp_all
  with False assms(3,4) have "q \<notin> fst ` set (tts_calls tr')" "q \<notin> fst ` set (audio_written tr')"
    unfolding st by auto
  then show ?thesis
    unfolding st by (simp add: synth_step_def Let_def c)
qed

lemma kokoro_fold_trace:
  assumes "read_ssml env q = Inr c" "strip_ssml_tags c = []"
    and "q \<notin> fst ` set (tts_calls (snd (snd st)))"
    and "q \<notin> fst ` set (audio_written (snd (snd st)))"
  shows "q \<notin> fst ` set (tts_calls (snd (snd (foldl (synth_step (convert_ssml_to_audio_kokoro env) ext) st ps))))
       \<and> q \<notin> fst ` set (audio_written (snd (snd (foldl (synth_step (convert_ssml_to_audio_kokoro env) ext) st ps))))"
  using assms(3,4)
proof (induction ps arbitrary: st)
  case Nil
  then show ?case by simp
next
  case (Cons p ps)
  from kokoro_step_trace [OF assms(1,2) Cons.prems, of ext p]
  show ?case
    using Cons.IH by simp
qed

lemma synth_step_keeps:
  "e \<in> set (fst st) \<Longrightarrow> e \<in> set (fst (synth_step convert ext st p))"
  by (auto simp: synth_step_def Let_def split: prod.splits)

lemma foldl_synth_keeps:
  "e \<in> set (fst st) \<Longrightarrow> e \<in> set (fst (foldl (synth_step convert ext) st ps))"
  by (induction ps arbitrary: st) (simp_all add: synth_step_keeps)

lemma kokoro_step_failed:
  assumes "read_ssml env q = Inr c" "strip_ssml_tags c = []"
  shows "[(''ssml_source'', path_str q), (''status'', ''failed'')]
           \<in> set (fst (synth_step (convert_ssml_to_audio_kokoro env) ext st q))"
proof -
  obtain es afs tr where st: "st = (es, afs, tr)"
    by (cases st) auto
  show ?thesis
    unfolding st by (simp add: synth_step_def Let_def kokoro_empty [OF assms])
qed

lemma kokoro_fold_failed:
  assumes "read_ssml env q = Inr c" "strip_ssml_tags c = []" "q \<in> set ps"
  shows "[(''ssml_source'', path_str q), (''status'', ''failed'')]
           \<in> set (fst (foldl (synth_step (convert_ssml_to_audio_kokoro env) ext) st ps))"
  using assms(3)
proof (induction ps arbitrary: st)
  case Nil
  then show ?case by simp
next
  case (Cons p ps)
  show ?case
  proof (cases "p = q")
    case True
    then show ?thesis
      using kokoro_step_failed [OF assms(1,2)] foldl_synth_keeps by simp
  next
    case False
    with Cons show ?thesis by simp
  qed
qed

lemma edge_ignores_manifest:
  "convert_ssml_to_audio (env\<lparr>manifest_json := x\<rparr>) = convert_ssml_to_audio env"
  by (intro ext) (simp add: convert_ssml_to_audio_def Let_def split: sum.split proc_result.split)

lemma kokoro_ignores_manifest:
  "convert_ssml_to_audio_kokoro (env\<lparr>manifest_json := x\<rparr>) = convert_ssml_to_audio_kokoro env"
  by (intro ext)
     (simp add: convert_ssml_to_audio_kokoro_def Let_def split: sum.split http_response.split)

lemma finish_ignores_manifest:
  "finish (env\<lparr>manifest_json := x\<rparr>) = finish env"
  by (intro ext)
     (simp add: finish_def concatenate_audio_files_def Let_def split: prod.split proc_result.split)

text \<open>
  Claim C1, as the code has it. With a conversion manifest that loads and at least one
  \<open>.ssml\<close> file found, both synthesis scripts finish, and their manifest has one entry for
  each file found, in sorted order; the content of the conversion manifest has no
  influence on the run.
\<close>

theorem synthesis_processes_found_files:
  assumes "manifest_json env = Loaded conversion_manifest" and "ssml_found env \<noteq> []"
  shows "(\<exists>pm tr. process_ssml_directory env voice concatenate = Inr (pm, tr)
            \<and> map (\<lambda>e. map_of e ''ssml_source'') (files pm)
                = map (\<lambda>p. Some (path_str p)) (sort (ssml_found env)))
       \<and> (\<exists>pm tr. process_ssml_directory_kokoro env concatenate = Inr (pm, tr)
            \<and> map (\<lambda>e. map_of e ''ssml_source'') (files pm)
                = map (\<lambda>p. Some (path_str p)) (sort (ssml_found env)))
       \<and> process_ssml_directory (env\<lparr>manifest_json := Loaded other\<rparr>) voice concatenate
           = process_ssml_directory env voice concatenate
       \<and> process_ssml_directory_kokoro (env\<lparr>manifest_json := Loaded other\<rparr>) concatenate
           = process_ssml_directory_kokoro env concatenate"
proof (intro conjI)
  show "\<exists>pm tr. process_ssml_directory env voice concatenate = Inr (pm, tr)
            \<and> map (\<lambda>e. map_of e ''ssml_source'') (files pm)
                = map (\<lambda>p. Some (path_str p)) (sort (ssml_found env))"
    unfolding edge_run [OF assms]
    by (intro exI conjI, rule prod.collapse [symmetric, THEN arg_cong])
       (simp add: files_finish foldl_synth_sources)
  show "\<exists>pm tr. process_ssml_directory_kokoro env concatenate = Inr (pm, tr)
            \<and> map (\<lambda>e. map_of e ''ssml_source'') (files pm)
                = map (\<lambda>p. Some (path_str p)) (sort (ssml_found env))"
    unfolding kokoro_run [OF assms]
    by (intro exI conjI, rule prod.collapse [symmetric, THEN arg_cong])
       (simp add: files_finish foldl_synth_sources)
  show "process_ssml_directory (env\<lparr>manifest_json := Loaded other\<rparr>) voice concatenate
           = process_ssml_directory env voice concatenate"
    using assms(1)
    by (simp add: process_ssml_directory_def edge_ignores_manifest finish_ignores_manifest Let_def)
  show "process_ssml_directory_kokoro (env\<lparr>manifest_json := Loaded other\<rparr>) concatenate
           = process_ssml_directory_kokoro env concatenate"
    using assms(1)
    by (simp add: process_ssml_directory_kokoro_def kokoro_ignores_manifest
        finish_ignores_manifest Let_def)
qed


text \<open>The example run has a manifest and seven files.\<close>

theorem synthesis_processes_found_files_witness:
  "manifest_json example_synth_env = Loaded example_conversion_manifest
   \<and> ssml_found example_synth_env \<noteq> []
   \<and> (\<exists>pm tr. process_ssml_directory example_synth_env DEFAULT_VOICE True = Inr (pm, tr)
         \<and> map (\<lambda>e. map_of e ''ssml_source'') (files pm)
             = map (\<lambda>p. Some (path_str p)) (sort (ssml_found example_synth_env)))
   \<and> (\<exists>pm tr. process_ssml_directory_kokoro example_synth_env True = Inr (pm, tr)
         \<and> map (\<lambda>e. map_of e ''ssml_source'') (files pm)
             = map (\<lambda>p. Some (path_str p)) (sort (ssml_found example_synth_env)))"
proof -
  have h1: "manifest_json example_synth_env = Loaded example_conversion_manifest"
    by (simp add: example_synth_env_def)
  have h2: "ssml_found example_synth_env \<noteq> []"
    by (simp add: example_synth_env_def)
  from synthesis_processes_found_files [OF h1 h2, of DEFAULT_VOICE True] h1 h2
  show ?thesis
    by blast
qed

text \<open>
  Claim C1 as stated fails: the conversion manifest of the example has five entries with
  status \<open>success\<close> and two failed ones, the directory still holds seven \<open>.ssml\<close> files,
  and the synthesis manifest of either script has seven entries (with \<open>edge-tts\<close>, seven
  successes).
\<close>

theorem synthesis_ignores_conversion_statuses:
  "map status (files example_conversion_manifest)
     = [Some ''success'', Some ''success'', Some ''success'', Some ''conversion_failed'',
        Some ''success'', Some ''conversion_failed'', Some ''success'']
   \<and> map_option (map status)
         (run_files (process_ssml_directory example_synth_env DEFAULT_VOICE True))
       = Some [Some ''success'', Some ''success'', Some ''success'', Some ''success'',
               Some ''success'', Some ''success'', Some ''success'']
   \<and> map_option length (run_files (process_ssml_directory_kokoro example_synth_env True))
       = Some 7"
  by code_simp





text \<open>
  Claim C3, as the code has it. The conversion stage records the statuses \<open>success\<close>,
  \<open>error\<close> and \<open>conversion_failed\<close>; both synthesis scripts record \<open>success\<close> and
  \<open>failed\<close>.
\<close>

theorem recorded_statuses:
  "(process_notebook cenv = Inr (m, w)
      \<longrightarrow> (\<forall>e \<in> set (files m).
             status e \<in> {Some ''success'', Some ''error'', Some ''conversion_failed''}))
   \<and> (process_ssml_directory env voice concatenate = Inr (pm, tr)
      \<longrightarrow> (\<forall>e \<in> set (files pm). status e \<in> {Some ''success'', Some ''failed''}))
   \<and> (process_ssml_directory_kokoro env concatenate = Inr (pm', tr')
      \<longrightarrow> (\<forall>e \<in> set (files pm'). status e \<in> {Some ''success'', Some ''failed''}))"
proof (intro conjI impI ballI)
  fix e
  assume "process_notebook cenv = Inr (m, w)" and e: "e \<in> set (files m)"
  then have "convert_loop cenv (sort (md_found cenv))
               (\<lparr>generated_at = conv_now cenv, total_files = length (sort (md_found cenv)),
                 files = []\<rparr>, []) = Inr (m, w)"
    by (simp add: process_notebook_def Let_def)
  from convert_loop_statuses [OF this, of e] e
  show "status e \<in> {Some ''success'', Some ''error'', Some ''conversion_failed''}"
    by simp
next
  fix e
  assume run: "process_ssml_directory env voice concatenate = Inr (pm, tr)"
    and e: "e \<in> set (files pm)"
  from run obtain cm where "manifest_json env = Loaded cm" "ssml_found env \<noteq> []"
    by (rule edge_run_cases)
  from edge_run [OF this, of voice concatenate] run e
  show "status e \<in> {Some ''success'', Some ''failed''}"
    using foldl_synth_statuses [of e _ "''.mp3''" "([], [], \<lparr>tts_calls = [], audio_written = []\<rparr>)"]
    by (metis (no_types, lifting) Inr_inject empty_iff empty_set files_finish fst_conv)
next
  fix e
  assume run: "process_ssml_directory_kokoro env concatenate = Inr (pm', tr')"
    and e: "e \<in> set (files pm')"
  from run obtain cm where "manifest_json env = Loaded cm" "ssml_found env \<noteq> []"
    by (rule kokoro_run_cases)
  from kokoro_run [OF this, of concatenate] run e
  show "status e \<in> {Some ''success'', Some ''failed''}"
    using foldl_synth_statuses [of e _ "''.wav''" "([], [], \<lparr>tts_calls = [], audio_written = []\<rparr>)"]
    by (metis (no_types, lifting) Inr_inject empty_iff empty_set files_finish fst_conv)
qed

text \<open>The three example runs finish, with statuses in these sets.\<close>

theorem recorded_statuses_witness:
  "\<exists>m w pm tr pm' tr'.
     process_notebook example_conv_env = Inr (m, w)
     \<and> process_ssml_directory example_synth_env DEFAULT_VOICE True = Inr (pm, tr)
     \<and> process_ssml_directory_kokoro example_synth_env True = Inr (pm', tr')
     \<and> set (map status (files m)) \<subseteq> {Some ''success'', Some ''error'', Some ''conversion_failed''}
     \<and> set (map status (files pm)) \<subseteq> {Some ''success'', Some ''failed''}
     \<and> set (map status (files pm')) \<subseteq> {Some ''success'', Some ''failed''}"
proof -
  have "\<forall>p \<in> set (sort (md_found example_conv_env)).
          \<exists>content. read_markdown_file example_conv_env p = Inr content
                    \<and> openrouter_post example_conv_env p content \<noteq> Malformed"
    by (simp add: example_conv_env_def)
  from convert_loop_complete [OF this]
  obtain m w where "convert_loop example_conv_env (sort (md_found example_conv_env))
      (\<lparr>generated_at = conv_now example_conv_env,
        total_files = length (sort (md_found example_conv_env)), files = []\<rparr>, []) = Inr (m, w)"
    by blast
  then have c: "process_notebook example_conv_env = Inr (m, w)"
    by (simp add: process_notebook_def Let_def)
  have h1: "manifest_json example_synth_env = Loaded example_conversion_manifest"
    by (simp add: example_synth_env_def)
  have h2: "ssml_found example_synth_env \<noteq> []"
    by (simp add: example_synth_env_def)
  obtain pm tr where e: "process_ssml_directory example_synth_env DEFAULT_VOICE True = Inr (pm, tr)"
    using edge_run [OF h1 h2, of DEFAULT_VOICE True] surj_pair by metis
  obtain pm' tr' where k: "process_ssml_directory_kokoro example_synth_env True = Inr (pm', tr')"
    using kokoro_run [OF h1 h2, of True] surj_pair by metis
  note rs = recorded_statuses
              [of example_conv_env m w example_synth_env DEFAULT_VOICE True pm tr pm' tr']
  have s1: "set (map status (files m))
              \<subseteq> {Some ''success'', Some ''error'', Some ''conversion_failed''}"
    unfolding set_map using rs [THEN conjunct1, rule_format, OF c] by (rule image_subsetI)
  have s2: "set (map status (files pm)) \<subseteq> {Some ''success'', Some ''failed''}"
    unfolding set_map
    using rs [THEN conjunct2, THEN conjunct1, rule_format, OF e] by (rule image_subsetI)
  have s3: "set (map status (files pm')) \<subseteq> {Some ''success'', Some ''failed''}"
    unfolding set_map
    using rs [THEN conjunct2, THEN conjunct2, rule_format, OF k] by (rule image_subsetI)
  from c e k s1 s2 s3 show ?thesis
    by (intro exI conjI)
qed

text \<open>
  Claim C3 as stated fails: the example conversion run records \<open>conversion_failed\<close> and
  \<open>error\<close>, neither of which is \<open>success\<close>, \<open>failed\<close> or \<open>skipped\<close>.
\<close>

theorem conversion_statuses_outside_spec:
  "map_option (map status) (run_files (process_notebook example_conv_env))
     = Some [Some ''success'', Some ''conversion_failed'', Some ''error'']
   \<and> Some ''conversion_failed'' \<notin> {Some ''success'', Some ''failed'', Some ''skipped''}
   \<and> Some ''error'' \<notin> {Some ''success'', Some ''failed'', Some ''skipped''}"
  by code_simp

text \<open>
  Claim C4, as the code has it. For a speech-markup file that can be read,
  \<open>generate-podcast.py\<close> hands its content to \<open>edge-tts\<close> as it is, and
  \<open>generate-podcast-kokoro.py\<close> hands the stripped text to the service, or makes no call
  when the stripped text is empty.
\<close>

theorem backend_inputs:
  assumes "read_ssml env ssml_file = Inr ssml_content"
  shows "tts_calls (snd (convert_ssml_to_audio env ssml_file output_file voice tr))
           = tts_calls tr @ [(ssml_file, ssml_content)]
       \<and> tts_calls (snd (convert_ssml_to_audio_kokoro env ssml_file output_file' tr))
           = tts_calls tr @ (if strip_ssml_tags ssml_content = [] then []
                             else [(ssml_file, strip_ssml_tags ssml_content)])"
  using edge_calls [OF assms] kokoro_calls [OF assms] by simp

text \<open>The example item: markup for one backend, plain text for the other.\<close>

theorem backend_inputs_witness:
  "read_ssml example_synth_env [''amd'', ''rocm.ssml''] = Inr ''<speak>Hello</speak>''
   \<and> strip_ssml_tags ''<speak>Hello</speak>'' = ''Hello''
   \<and> tts_calls (snd (convert_ssml_to_audio example_synth_env [''amd'', ''rocm.ssml'']
                        [''amd'', ''rocm.mp3''] DEFAULT_VOICE no_trace))
       = tts_calls no_trace @ [([''amd'', ''rocm.ssml''], ''<speak>Hello</speak>'')]
   \<and> tts_calls (snd (convert_ssml_to_audio_kokoro example_synth_env [''amd'', ''rocm.ssml'']
                        [''amd'', ''rocm.wav''] no_trace))
       = tts_calls no_trace @ [([''amd'', ''rocm.ssml''], ''Hello'')]"
proof -
  have h: "read_ssml example_synth_env [''amd'', ''rocm.ssml''] = Inr ''<speak>Hello</speak>''"
    by (simp add: example_synth_env_def)
  have s: "strip_ssml_tags ''<speak>Hello</speak>'' = ''Hello''"
    by code_simp
  from backend_inputs [OF h, of "[''amd'', ''rocm.mp3'']" DEFAULT_VOICE no_trace
                         "[''amd'', ''rocm.wav'']"] h s
  show ?thesis
    by simp
qed

text \<open>
  Claim C4 as stated fails: for the content \<open><speak>Hello</speak>\<close> the two backends
  receive different texts.
\<close>

theorem backends_receive_different_text:
  "tts_calls (snd (convert_ssml_to_audio example_synth_env [''amd'', ''rocm.ssml'']
                     [''amd'', ''rocm.mp3''] DEFAULT_VOICE no_trace))
     = [([''amd'', ''rocm.ssml''], ''<speak>Hello</speak>'')]
   \<and> tts_calls (snd (convert_ssml_to_audio_kokoro example_synth_env [''amd'', ''rocm.ssml'']
                        [''amd'', ''rocm.wav''] no_trace))
       = [([''amd'', ''rocm.ssml''], ''Hello'')]"
  by code_simp

text \<open>
  Claim C10. In \<open>generate-podcast-kokoro.py\<close>, for a file found whose content strips to
  the empty string: the conversion returns \<open>False\<close> and leaves the trace as it is; the
  run finishes, its trace has no backend call and no audio file for the item, and the
  manifest records the item with status \<open>failed\<close>.
\<close>

theorem kokoro_empty_text_not_synthesised:
  assumes "manifest_json env = Loaded conversion_manifest"
    and "ssml_file \<in> set (ssml_found env)"
    and "read_ssml env ssml_file = Inr ssml_content"
    and "strip_ssml_tags ssml_content = []"
  shows "convert_ssml_to_audio_kokoro env ssml_file output_file tr0 = (False, tr0)
       \<and> (\<exists>pm tr. process_ssml_directory_kokoro env concatenate = Inr (pm, tr)
             \<and> ssml_file \<notin> fst ` set (tts_calls tr)
             \<and> ssml_file \<notin> fst ` set (audio_written tr)
             \<and> [(''ssml_source'', path_str ssml_file), (''status'', ''failed'')]
                 \<in> set (files pm))"
proof
  show "convert_ssml_to_audio_kokoro env ssml_file output_file tr0 = (False, tr0)"
    using assms(3,4) by (rule kokoro_empty)
next
  let ?init = "([], [], \<lparr>tts_calls = [], audio_written = []\<rparr>) :: synth_state"
  let ?st = "foldl (synth_step (convert_ssml_to_audio_kokoro env) ''.wav'') ?init
               (sort (ssml_found env))"
  let ?blank = "\<lparr>generated_at = synth_now env, total_files = length (ssml_found env), files = [],
               settings = [(''tts_engine'', ''kokoro-82m''), (''model'', KOKORO_MODEL)],
               full_podcast = None\<rparr>"
  have ne: "ssml_found env \<noteq> []"
    using assms(2) by auto
  have run: "process_ssml_directory_kokoro env concatenate
               = Inr (fst (finish env concatenate ''.wav'' ?blank ?st),
                      snd (finish env concatenate ''.wav'' ?blank ?st))"
    by (simp add: kokoro_run [OF assms(1) ne])
  have t0: "ssml_file \<notin> fst ` set (tts_calls (snd (snd ?init)))"
    and a0: "ssml_file \<notin> fst ` set (audio_written (snd (snd ?init)))"
    by simp_all
  have ta: "ssml_file \<notin> fst ` set (tts_calls (snd (snd ?st)))
            \<and> ssml_file \<notin> fst ` set (audio_written (snd (snd ?st)))"
    using assms(3,4) t0 a0 by (rule kokoro_fold_trace)
  then have t: "ssml_file \<notin> fst ` set (tts_calls (snd (snd ?st)))"
    and a: "ssml_file \<notin> fst ` set (audio_written (snd (snd ?st)))"
    by (rule conjunct1, rule conjunct2)
  have "ssml_file \<in> set (sort (ssml_found env))"
    using assms(2) by simp
  from kokoro_fold_failed [OF assms(3,4) this]
  have f: "[(''ssml_source'', path_str ssml_file), (''status'', ''failed'')] \<in> set (fst ?st)"
    by blast
  show "\<exists>pm tr. process_ssml_directory_kokoro env concatenate = Inr (pm, tr)
             \<and> ssml_file \<notin> fst ` set (tts_calls tr)
             \<and> ssml_file \<notin> fst ` set (audio_written tr)
             \<and> [(''ssml_source'', path_str ssml_file), (''status'', ''failed'')]
                 \<in> set (files pm)"
  proof (intro exI conjI)
    show "process_ssml_directory_kokoro env concatenate
            = Inr (fst (finish env concatenate ''.wav'' ?blank ?st),
                   snd (finish env concatenate ''.wav'' ?blank ?st))"
      by (rule run)
    show "ssml_file \<notin> fst ` set (tts_calls (snd (finish env concatenate ''.wav'' ?blank ?st)))"
      using t by (simp add: trace_finish)
    show "ssml_file \<notin> fst ` set (audio_written (snd (finish env concatenate ''.wav'' ?blank ?st)))"
      using a by (simp add: trace_finish)
    show "[(''ssml_source'', path_str ssml_file), (''status'', ''failed'')]
            \<in> set (files (fst (finish env concatenate ''.wav'' ?blank ?st)))"
      using f by (simp add: files_finish)
  qed
qed

text \<open>In the example run, \<open>notes/empty.ssml\<close> holds \<open><speak> </speak>\<close>.\<close>

theorem kokoro_empty_text_not_synthesised_witness:
  "manifest_json example_synth_env = Loaded example_conversion_manifest
   \<and> [''notes'', ''empty.ssml''] \<in> set (ssml_found example_synth_env)
   \<and> read_ssml example_synth_env [''notes'', ''empty.ssml''] = Inr ''<speak> </speak>''
   \<and> strip_ssml_tags ''<speak> </speak>'' = []
   \<and> convert_ssml_to_audio_kokoro example_synth_env [''notes'', ''empty.ssml'']
        [''notes'', ''empty.wav''] no_trace = (False, no_trace)
   \<and> (\<exists>pm tr. process_ssml_directory_kokoro example_synth_env True = Inr (pm, tr)
         \<and> [''notes'', ''empty.ssml''] \<notin> fst ` set (tts_calls tr)
         \<and> [''notes'', ''empty.ssml''] \<notin> fst ` set (audio_written tr)
         \<and> [(''ssml_source'', path_str [''notes'', ''empty.ssml'']), (''status'', ''failed'')]
             \<in> set (files pm))"
proof -
  have h1: "manifest_json example_synth_env = Loaded example_conversion_manifest"
    by (simp add: example_synth_env_def)
  have h2: "[''notes'', ''empty.ssml''] \<in> set (ssml_found example_synth_env)"
    by (simp add: example_synth_env_def)
  have h3: "read_ssml example_synth_env [''notes'', ''empty.ssml''] = Inr ''<speak> </speak>''"
    by (simp add: example_synth_env_def)
  have h4: "strip_ssml_tags ''<speak> </speak>'' = []"
    by code_simp
  from kokoro_empty_text_not_synthesised
         [OF h1 h2 h3 h4, of "[''notes'', ''empty.wav'']" no_trace True] h1 h2 h3 h4
  show ?thesis
    by blast
qed

end
